theory Spec2Isabelle
  imports Complex_Main
begin

section \<open>Numbers and errors of the pricing code\<close>

text \<open>
  The pricer computes on numpy \<open>float64\<close> scalars. A \<open>float64\<close> is modelled as an exact
  real or one of the three IEEE special values, with the IEEE rules for them; rounding,
  overflow and the sign of zero are not modelled (every zero denominator of this program
  is a difference of two equal values or a square, which IEEE makes \<open>+0\<close>).
  numpy scalar arithmetic never raises: a division by zero yields an infinity or a NaN
  (with a RuntimeWarning). Python's own \<open>float / int\<close> raises ZeroDivisionError.
\<close>

datatype float64 = Fin real | PInf | NInf | NaN

datatype error = ZeroDivisionError | ValueError | IndexError | AttributeError

datatype 'a outcome = Returned (returned_value: 'a) | Raised error

fun is_finite :: "float64 \<Rightarrow> bool" where
  "is_finite (Fin a) = True"
| "is_finite PInf = False"
| "is_finite NInf = False"
| "is_finite NaN = False"

fun np_neg :: "float64 \<Rightarrow> float64" where
  "np_neg (Fin a) = Fin (- a)"
| "np_neg PInf = NInf"
| "np_neg NInf = PInf"
| "np_neg NaN = NaN"

fun np_add :: "float64 \<Rightarrow> float64 \<Rightarrow> float64" where
  "np_add (Fin a) (Fin b) = Fin (a + b)"
| "np_add NaN y = NaN"
| "np_add x NaN = NaN"
| "np_add PInf NInf = NaN"
| "np_add NInf PInf = NaN"
| "np_add PInf y = PInf"
| "np_add x PInf = PInf"
| "np_add NInf y = NInf"
| "np_add x NInf = NInf"

definition np_sub :: "float64 \<Rightarrow> float64 \<Rightarrow> float64" where
  "np_sub x y = np_add x (np_neg y)"

fun np_mul :: "float64 \<Rightarrow> float64 \<Rightarrow> float64" where
  "np_mul (Fin a) (Fin b) = Fin (a * b)"
| "np_mul NaN y = NaN"
| "np_mul x NaN = NaN"
| "np_mul (Fin a) PInf = (if a = 0 then NaN else if 0 < a then PInf else NInf)"
| "np_mul (Fin a) NInf = (if a = 0 then NaN else if 0 < a then NInf else PInf)"
| "np_mul PInf (Fin b) = (if b = 0 then NaN else if 0 < b then PInf else NInf)"
| "np_mul NInf (Fin b) = (if b = 0 then NaN else if 0 < b then NInf else PInf)"
| "np_mul PInf PInf = PInf"
| "np_mul PInf NInf = NInf"
| "np_mul NInf PInf = NInf"
| "np_mul NInf NInf = PInf"

fun np_div :: "float64 \<Rightarrow> float64 \<Rightarrow> float64" where
  "np_div (Fin a) (Fin b) =
     (if b = 0 then (if a = 0 then NaN else if 0 < a then PInf else NInf)
      else Fin (a / b))"
| "np_div NaN y = NaN"
| "np_div x NaN = NaN"
| "np_div (Fin a) PInf = Fin 0"
| "np_div (Fin a) NInf = Fin 0"
| "np_div PInf (Fin b) = (if 0 \<le> b then PInf else NInf)"
| "np_div NInf (Fin b) = (if 0 \<le> b then NInf else PInf)"
| "np_div PInf PInf = NaN"
| "np_div PInf NInf = NaN"
| "np_div NInf PInf = NaN"
| "np_div NInf NInf = NaN"

fun np_exp :: "float64 \<Rightarrow> float64" where
  "np_exp (Fin a) = Fin (exp a)"
| "np_exp PInf = PInf"
| "np_exp NInf = Fin 0"
| "np_exp NaN = NaN"

text \<open>\<open>np.sqrt\<close> is applied to the Python float \<open>dt\<close>; a negative argument gives NaN.\<close>

definition np_sqrt :: "real \<Rightarrow> float64" where
  "np_sqrt x = (if x < 0 then NaN else Fin (sqrt x))"

text \<open>\<open>x ** n\<close> for an integer exponent \<open>n \<ge> 0\<close>; \<open>x ** 0\<close> is 1 for every \<open>x\<close>, NaN included.\<close>

fun np_pow :: "float64 \<Rightarrow> nat \<Rightarrow> float64" where
  "np_pow x 0 = Fin 1"
| "np_pow (Fin a) (Suc n) = Fin (a ^ Suc n)"
| "np_pow PInf (Suc n) = PInf"
| "np_pow NInf (Suc n) = (if even (Suc n) then PInf else NInf)"
| "np_pow NaN (Suc n) = NaN"

text \<open>Python's \<open>max(0, x)\<close> keeps \<open>0\<close> unless \<open>x > 0\<close> holds; \<open>nan > 0\<close> is false.\<close>

fun py_max0 :: "float64 \<Rightarrow> float64" where
  "py_max0 (Fin a) = (if 0 < a then Fin a else Fin 0)"
| "py_max0 PInf = PInf"
| "py_max0 NInf = Fin 0"
| "py_max0 NaN = Fin 0"

text \<open>\<open>time_to_maturity / steps\<close>: a Python float divided by a Python int.\<close>

definition py_truediv :: "real \<Rightarrow> int \<Rightarrow> error + real" where
  "py_truediv a n = (if n = 0 then Inl ZeroDivisionError else Inr (a / real_of_int n))"

section \<open>Arrays\<close>

text \<open>
  \<open>np.zeros(n)\<close> raises ValueError for a negative \<open>n\<close>. All indices the program uses are
  non-negative, so an index is a \<open>nat\<close>; a read or write at or beyond the length raises
  IndexError.
\<close>

definition np_zeros :: "int \<Rightarrow> error + float64 list" where
  "np_zeros n = (if n < 0 then Inl ValueError else Inr (replicate (nat n) (Fin 0)))"

definition getitem :: "'a list \<Rightarrow> nat \<Rightarrow> error + 'a" where
  "getitem xs i = (if i < length xs then Inr (xs ! i) else Inl IndexError)"

definition setitem :: "'a list \<Rightarrow> nat \<Rightarrow> 'a \<Rightarrow> error + 'a list" where
  "setitem xs i v = (if i < length xs then Inr (xs[i := v]) else Inl IndexError)"

section \<open>The lattice pricer\<close>

record BinomialOptionPricing =
  time_to_maturity :: real
  strike :: real
  current_price :: real
  volatility :: real
  interest_rate :: real
  steps :: int
  call_price :: "float64 option"
  put_price :: "float64 option"
  call_delta :: "float64 option"
  put_delta :: "float64 option"
  call_gamma :: "float64 option"
  put_gamma :: "float64 option"

text \<open>The constructor stores the six parameters; the six results are attributes that
  do not exist (\<open>None\<close>) until the pricing method assigns them.\<close>

definition init :: "real \<Rightarrow> real \<Rightarrow> real \<Rightarrow> real \<Rightarrow> real \<Rightarrow> int \<Rightarrow> BinomialOptionPricing" where
  "init T K S vol r n =
     \<lparr>time_to_maturity = T, strike = K, current_price = S, volatility = vol,
      interest_rate = r, steps = n,
      call_price = None, put_price = None, call_delta = None, put_delta = None,
      call_gamma = None, put_gamma = None\<rparr>"

text \<open>The local variables \<open>u\<close>, \<open>d\<close>, \<open>q\<close> and the discount factor of the inner loop.\<close>

definition up_factor :: "real \<Rightarrow> real \<Rightarrow> float64" where
  "up_factor vol dt = np_exp (np_mul (Fin vol) (np_sqrt dt))"

definition down_factor :: "real \<Rightarrow> real \<Rightarrow> float64" where
  "down_factor vol dt = np_div (Fin 1) (up_factor vol dt)"

definition risk_neutral :: "real \<Rightarrow> real \<Rightarrow> real \<Rightarrow> float64" where
  "risk_neutral vol r dt =
     np_div (np_sub (np_exp (Fin (r * dt))) (down_factor vol dt))
            (np_sub (up_factor vol dt) (down_factor vol dt))"

definition discount :: "real \<Rightarrow> real \<Rightarrow> float64" where
  "discount r dt = np_exp (Fin (- r * dt))"

text \<open>The asset price at node \<open>i\<close> of the last level, and the two payoffs.\<close>

definition node_price :: "real \<Rightarrow> float64 \<Rightarrow> float64 \<Rightarrow> int \<Rightarrow> nat \<Rightarrow> float64" where
  "node_price S u d n i = np_mul (np_mul (Fin S) (np_pow u i)) (np_pow d (nat (n - int i)))"

definition call_payoff :: "real \<Rightarrow> real \<Rightarrow> float64 \<Rightarrow> float64 \<Rightarrow> int \<Rightarrow> nat \<Rightarrow> float64" where
  "call_payoff K S u d n i = py_max0 (np_sub (node_price S u d n i) (Fin K))"

definition put_payoff :: "real \<Rightarrow> real \<Rightarrow> float64 \<Rightarrow> float64 \<Rightarrow> int \<Rightarrow> nat \<Rightarrow> float64" where
  "put_payoff K S u d n i = py_max0 (np_sub (Fin K) (node_price S u d n i))"

text \<open>\<open>for i in range(steps + 1): option_prices[i] = payoff(i)\<close>\<close>

fun terminal_loop :: "(nat \<Rightarrow> float64) \<Rightarrow> float64 list \<Rightarrow> nat list \<Rightarrow> error + float64 list" where
  "terminal_loop f xs [] = Inr xs"
| "terminal_loop f xs (i # is) =
     (case setitem xs i (f i) of
        Inl e \<Rightarrow> Inl e
      | Inr xs' \<Rightarrow> terminal_loop f xs' is)"

text \<open>\<open>for i in range(j + 1): option_prices[i] = disc * (q * option_prices[i + 1] + (1 - q) * option_prices[i])\<close>\<close>

fun inner_loop :: "float64 \<Rightarrow> float64 \<Rightarrow> float64 list \<Rightarrow> nat list \<Rightarrow> error + float64 list" where
  "inner_loop disc q xs [] = Inr xs"
| "inner_loop disc q xs (i # is) =
     (case getitem xs (i + 1) of
        Inl e \<Rightarrow> Inl e
      | Inr a \<Rightarrow>
         (case getitem xs i of
            Inl e \<Rightarrow> Inl e
          | Inr b \<Rightarrow>
             (case setitem xs i
                     (np_mul disc (np_add (np_mul q a) (np_mul (np_sub (Fin 1) q) b))) of
                Inl e \<Rightarrow> Inl e
              | Inr xs' \<Rightarrow> inner_loop disc q xs' is)))"

text \<open>\<open>for j in range(steps - 1, -1, -1): ...\<close>\<close>

fun backward_loop :: "float64 \<Rightarrow> float64 \<Rightarrow> float64 list \<Rightarrow> nat list \<Rightarrow> error + float64 list" where
  "backward_loop disc q xs [] = Inr xs"
| "backward_loop disc q xs (j # js) =
     (case inner_loop disc q xs [0..<j + 1] of
        Inl e \<Rightarrow> Inl e
      | Inr xs' \<Rightarrow> backward_loop disc q xs' js)"

text \<open>One pass: allocate, fill the last level, induct backwards. The array is returned
  as the pass leaves it.\<close>

definition lattice_pass :: "(nat \<Rightarrow> float64) \<Rightarrow> float64 \<Rightarrow> float64 \<Rightarrow> int \<Rightarrow> error + float64 list" where
  "lattice_pass payoff disc q n =
     (case np_zeros (n + 1) of
        Inl e \<Rightarrow> Inl e
      | Inr zs \<Rightarrow>
         (case terminal_loop payoff zs [0..<nat (n + 1)] of
            Inl e \<Rightarrow> Inl e
          | Inr vs \<Rightarrow> backward_loop disc q vs (rev [0..<nat n])))"

text \<open>
  The two passes of the method, up to \<open>put_price = option_prices[0]\<close>. The text is the
  same in \<open>run\<close> (model file) and in \<open>calculate_prices\<close> (app file). The value is
  \<open>(call_price, put_price, option_prices, u, d)\<close> with \<open>option_prices\<close> the array of
  the put pass.
\<close>

definition price_passes ::
  "BinomialOptionPricing \<Rightarrow> error + (float64 \<times> float64 \<times> float64 list \<times> float64 \<times> float64)" where
  "price_passes self =
     (case py_truediv (time_to_maturity self) (steps self) of
        Inl e \<Rightarrow> Inl e
      | Inr dt \<Rightarrow>
         (let u = up_factor (volatility self) dt;
              d = down_factor (volatility self) dt;
              q = risk_neutral (volatility self) (interest_rate self) dt;
              disc = discount (interest_rate self) dt
          in case lattice_pass (call_payoff (strike self) (current_price self) u d (steps self))
                    disc q (steps self) of
               Inl e \<Rightarrow> Inl e
             | Inr cs \<Rightarrow>
                (case getitem cs 0 of
                   Inl e \<Rightarrow> Inl e
                 | Inr cp \<Rightarrow>
                    (case lattice_pass
                            (put_payoff (strike self) (current_price self) u d (steps self))
                            disc q (steps self) of
                       Inl e \<Rightarrow> Inl e
                     | Inr ps \<Rightarrow>
                        (case getitem ps 0 of
                           Inl e \<Rightarrow> Inl e
                         | Inr pp \<Rightarrow> Inr (cp, pp, ps, u, d))))))"

text \<open>The two Greek lines: \<open>delta\<close> reads indices 1 and 0, then \<open>gamma\<close> reads 2, 1 and 0.\<close>

definition delta_of :: "float64 \<Rightarrow> float64 \<Rightarrow> real \<Rightarrow> float64 \<Rightarrow> float64 \<Rightarrow> float64" where
  "delta_of v1 v0 S u d = np_div (np_sub v1 v0) (np_sub (np_mul (Fin S) u) (np_mul (Fin S) d))"

definition gamma_of :: "float64 \<Rightarrow> float64 \<Rightarrow> float64 \<Rightarrow> real \<Rightarrow> float64 \<Rightarrow> float64 \<Rightarrow> float64" where
  "gamma_of v2 v1 v0 S u d =
     np_div (np_add (np_sub v2 (np_mul (Fin 2) v1)) v0)
            (np_mul (Fin (1 / 2)) (np_pow (np_sub (np_mul (Fin S) u) (np_mul (Fin S) d)) 2))"

definition greeks :: "float64 list \<Rightarrow> real \<Rightarrow> float64 \<Rightarrow> float64 \<Rightarrow> error + (float64 \<times> float64)" where
  "greeks vs S u d =
     (case getitem vs 1 of
        Inl e \<Rightarrow> Inl e
      | Inr a1 \<Rightarrow>
         (case getitem vs 0 of
            Inl e \<Rightarrow> Inl e
          | Inr a0 \<Rightarrow>
             (case getitem vs 2 of
                Inl e \<Rightarrow> Inl e
              | Inr b2 \<Rightarrow>
                 (case getitem vs 1 of
                    Inl e \<Rightarrow> Inl e
                  | Inr b1 \<Rightarrow>
                     (case getitem vs 0 of
                        Inl e \<Rightarrow> Inl e
                      | Inr b0 \<Rightarrow> Inr (delta_of a1 a0 S u d, gamma_of b2 b1 b0 S u d))))))"

text \<open>
  \<open>BinomialOptionPricing.run\<close> of the model file: the two prices are assigned to the
  object before the Greek lines run, the four Greeks after them. The method returns
  nothing; an exception leaves the object as it was when raised.
\<close>

definition run :: "BinomialOptionPricing \<Rightarrow> unit outcome \<times> BinomialOptionPricing" where
  "run self =
     (case price_passes self of
        Inl e \<Rightarrow> (Raised e, self)
      | Inr (cp, pp, vs, u, d) \<Rightarrow>
         (let self1 = self\<lparr>call_price := Some cp, put_price := Some pp\<rparr>
          in case greeks vs (current_price self) u d of
               Inl e \<Rightarrow> (Raised e, self1)
             | Inr (delta, gamma) \<Rightarrow>
                (Returned (),
                 self1\<lparr>call_delta := Some delta,
                        put_delta := Some (np_sub (Fin 1) delta),
                        call_gamma := Some gamma,
                        put_gamma := Some gamma\<rparr>)))"

text \<open>
  \<open>BinomialOptionPricing.calculate_prices\<close> of the app file: the Greek lines run first,
  then all six attributes are assigned, and the two prices are returned.
\<close>

definition calculate_prices ::
  "BinomialOptionPricing \<Rightarrow> (float64 \<times> float64) outcome \<times> BinomialOptionPricing" where
  "calculate_prices self =
     (case price_passes self of
        Inl e \<Rightarrow> (Raised e, self)
      | Inr (cp, pp, vs, u, d) \<Rightarrow>
         (case greeks vs (current_price self) u d of
            Inl e \<Rightarrow> (Raised e, self)
          | Inr (delta, gamma) \<Rightarrow>
             (Returned (cp, pp),
              self\<lparr>call_price := Some cp,
                    put_price := Some pp,
                    call_delta := Some delta,
                    put_delta := Some (np_sub (Fin 1) delta),
                    call_gamma := Some gamma,
                    put_gamma := Some gamma\<rparr>)))"

section \<open>The parameter sweep\<close>

text \<open>
  The numeric part of \<open>plot_heatmap\<close> of the app file: two grids of zeros, then for every
  \<open>(i, vol)\<close> of \<open>enumerate(vol_range)\<close> and every \<open>(j, spot)\<close> of
  \<open>enumerate(spot_range)\<close> a fresh pricer is built, priced, and its two prices are
  written to cell \<open>[i, j]\<close>. An exception of a pricing call leaves the function. The
  drawing of the two grids is not modelled; the model returns the grids.
\<close>

type_synonym grid = "float64 list list"

definition np_zeros2 :: "nat \<Rightarrow> nat \<Rightarrow> grid" where
  "np_zeros2 m n = replicate m (replicate n (Fin 0))"

definition setitem2 :: "grid \<Rightarrow> nat \<Rightarrow> nat \<Rightarrow> float64 \<Rightarrow> error + grid" where
  "setitem2 g i j v =
     (if i < length g \<and> j < length (g ! i) then Inr (g[i := (g ! i)[j := v]])
      else Inl IndexError)"

definition getattr :: "'a option \<Rightarrow> error + 'a" where
  "getattr a = (case a of None \<Rightarrow> Inl AttributeError | Some v \<Rightarrow> Inr v)"

definition binomial_temp :: "BinomialOptionPricing \<Rightarrow> real \<Rightarrow> real \<Rightarrow> real \<Rightarrow> BinomialOptionPricing" where
  "binomial_temp binomial_model K vol spot =
     init (time_to_maturity binomial_model) K spot vol
          (interest_rate binomial_model) (steps binomial_model)"

fun spot_loop ::
  "BinomialOptionPricing \<Rightarrow> real \<Rightarrow> nat \<Rightarrow> real \<Rightarrow> grid \<times> grid \<Rightarrow> (nat \<times> real) list
   \<Rightarrow> error + grid \<times> grid" where
  "spot_loop bm K i vol (cg, pg) [] = Inr (cg, pg)"
| "spot_loop bm K i vol (cg, pg) ((j, spot) # rest) =
     (case calculate_prices (binomial_temp bm K vol spot) of
        (Raised e, temp) \<Rightarrow> Inl e
      | (Returned r, temp) \<Rightarrow>
         (case getattr (call_price temp) of
            Inl e \<Rightarrow> Inl e
          | Inr c \<Rightarrow>
             (case setitem2 cg i j c of
                Inl e \<Rightarrow> Inl e
              | Inr cg' \<Rightarrow>
                 (case getattr (put_price temp) of
                    Inl e \<Rightarrow> Inl e
                  | Inr p \<Rightarrow>
                     (case setitem2 pg i j p of
                        Inl e \<Rightarrow> Inl e
                      | Inr pg' \<Rightarrow> spot_loop bm K i vol (cg', pg') rest)))))"

fun vol_loop ::
  "BinomialOptionPricing \<Rightarrow> real \<Rightarrow> real list \<Rightarrow> grid \<times> grid \<Rightarrow> (nat \<times> real) list
   \<Rightarrow> error + grid \<times> grid" where
  "vol_loop bm K spot_range g [] = Inr g"
| "vol_loop bm K spot_range g ((i, vol) # rest) =
     (case spot_loop bm K i vol g (enumerate 0 spot_range) of
        Inl e \<Rightarrow> Inl e
      | Inr g' \<Rightarrow> vol_loop bm K spot_range g' rest)"

definition plot_heatmap ::
  "BinomialOptionPricing \<Rightarrow> real list \<Rightarrow> real list \<Rightarrow> real \<Rightarrow> error + grid \<times> grid" where
  "plot_heatmap binomial_model spot_range vol_range K =
     vol_loop binomial_model K spot_range
       (np_zeros2 (length vol_range) (length spot_range),
        np_zeros2 (length vol_range) (length spot_range))
       (enumerate 0 vol_range)"

section \<open>The algorithm as the specification words it\<close>

text \<open>
  Over the reals: the step length, the factors, the risk-neutral probability, the two
  terminal payoff vectors of length \<open>steps + 1\<close>, and the in-place backward induction that
  overwrites node \<open>i\<close> for \<open>j\<close> from \<open>steps - 1\<close> down to \<open>0\<close> and \<open>i\<close> from \<open>0\<close> to \<open>j\<close>.
\<close>

definition spec_u :: "real \<Rightarrow> real \<Rightarrow> real" where
  "spec_u vol dt = exp (vol * sqrt dt)"

definition spec_d :: "real \<Rightarrow> real \<Rightarrow> real" where
  "spec_d vol dt = 1 / spec_u vol dt"

definition spec_q :: "real \<Rightarrow> real \<Rightarrow> real \<Rightarrow> real" where
  "spec_q vol r dt = (exp (r * dt) - spec_d vol dt) / (spec_u vol dt - spec_d vol dt)"

definition spec_call_terminal :: "real \<Rightarrow> real \<Rightarrow> real \<Rightarrow> real \<Rightarrow> nat \<Rightarrow> real list" where
  "spec_call_terminal K S u d n = map (\<lambda>i. max 0 (S * u ^ i * d ^ (n - i) - K)) [0..<n + 1]"

definition spec_put_terminal :: "real \<Rightarrow> real \<Rightarrow> real \<Rightarrow> real \<Rightarrow> nat \<Rightarrow> real list" where
  "spec_put_terminal K S u d n = map (\<lambda>i. max 0 (K - S * u ^ i * d ^ (n - i))) [0..<n + 1]"

definition spec_overwrite :: "real \<Rightarrow> real \<Rightarrow> real \<Rightarrow> real list \<Rightarrow> nat \<Rightarrow> real list" where
  "spec_overwrite r dt q v i = v[i := exp (- r * dt) * (q * v ! (i + 1) + (1 - q) * v ! i)]"

definition spec_level :: "real \<Rightarrow> real \<Rightarrow> real \<Rightarrow> real list \<Rightarrow> nat \<Rightarrow> real list" where
  "spec_level r dt q v j = foldl (spec_overwrite r dt q) v [0..<j + 1]"

definition spec_backward :: "real \<Rightarrow> real \<Rightarrow> real \<Rightarrow> real list \<Rightarrow> nat \<Rightarrow> real list" where
  "spec_backward r dt q v n = foldl (spec_level r dt q) v (rev [0..<n])"

definition spec_call_array :: "real \<Rightarrow> real \<Rightarrow> real \<Rightarrow> real \<Rightarrow> real \<Rightarrow> nat \<Rightarrow> real list" where
  "spec_call_array T K S vol r n =
     (let dt = T / real n; u = spec_u vol dt; d = spec_d vol dt; q = spec_q vol r dt
      in spec_backward r dt q (spec_call_terminal K S u d n) n)"

definition spec_put_array :: "real \<Rightarrow> real \<Rightarrow> real \<Rightarrow> real \<Rightarrow> real \<Rightarrow> nat \<Rightarrow> real list" where
  "spec_put_array T K S vol r n =
     (let dt = T / real n; u = spec_u vol dt; d = spec_d vol dt; q = spec_q vol r dt
      in spec_backward r dt q (spec_put_terminal K S u d n) n)"

definition spec_call_price :: "real \<Rightarrow> real \<Rightarrow> real \<Rightarrow> real \<Rightarrow> real \<Rightarrow> nat \<Rightarrow> real" where
  "spec_call_price T K S vol r n = spec_call_array T K S vol r n ! 0"

definition spec_put_price :: "real \<Rightarrow> real \<Rightarrow> real \<Rightarrow> real \<Rightarrow> real \<Rightarrow> nat \<Rightarrow> real" where
  "spec_put_price T K S vol r n = spec_put_array T K S vol r n ! 0"

section \<open>The loops as folds\<close>

text \<open>The loop bodies without the bounds checks, used to reason about the loops once
  every index is known to be in range.\<close>

definition np_overwrite :: "float64 \<Rightarrow> float64 \<Rightarrow> float64 list \<Rightarrow> nat \<Rightarrow> float64 list" where
  "np_overwrite disc q v i =
     v[i := np_mul disc (np_add (np_mul q (v ! (i + 1))) (np_mul (np_sub (Fin 1) q) (v ! i)))]"

definition np_level :: "float64 \<Rightarrow> float64 \<Rightarrow> float64 list \<Rightarrow> nat \<Rightarrow> float64 list" where
  "np_level disc q v j = foldl (np_overwrite disc q) v [0..<j + 1]"

definition np_backward :: "float64 \<Rightarrow> float64 \<Rightarrow> float64 list \<Rightarrow> nat \<Rightarrow> float64 list" where
  "np_backward disc q v n = foldl (np_level disc q) v (rev [0..<n])"

section \<open>Facts about the loops and the arithmetic\<close>

lemma length_np_overwrite [simp]: "length (np_overwrite disc q v i) = length v"
  by (simp add: np_overwrite_def)

lemma length_foldl_np_overwrite [simp]:
  "length (foldl (np_overwrite disc q) v is) = length v"
  by (induction "is" arbitrary: v) simp_all

lemma length_np_level [simp]: "length (np_level disc q v j) = length v"
  by (simp add: np_level_def)

lemma length_foldl_np_level [simp]:
  "length (foldl (np_level disc q) v js) = length v"
  by (induction js arbitrary: v) simp_all

lemma terminal_loop_ok:
  "\<forall>i\<in>set is. i < length xs \<Longrightarrow>
   terminal_loop f xs is = Inr (foldl (\<lambda>v i. v[i := f i]) xs is)"
  by (induction "is" arbitrary: xs) (simp_all add: setitem_def)

lemma inner_loop_ok:
  "\<forall>i\<in>set is. i + 1 < length xs \<Longrightarrow>
   inner_loop disc q xs is = Inr (foldl (np_overwrite disc q) xs is)"
proof (induction "is" arbitrary: xs)
  case Nil
  then show ?case by simp
next
  case (Cons i "is")
  have "\<forall>k\<in>set is. k + 1 < length (np_overwrite disc q xs i)"
    using Cons.prems by simp
  from Cons.IH[OF this] Cons.prems show ?case
    by (simp add: getitem_def setitem_def np_overwrite_def)
qed

lemma backward_loop_ok:
  "\<forall>j\<in>set js. j + 1 < length xs \<Longrightarrow>
   backward_loop disc q xs js = Inr (foldl (np_level disc q) xs js)"
proof (induction js arbitrary: xs)
  case Nil
  then show ?case by simp
next
  case (Cons j js)
  have "\<forall>i\<in>set [0..<j + 1]. i + 1 < length xs" using Cons.prems by auto
  then have i: "inner_loop disc q xs [0..<j + 1] = Inr (np_level disc q xs j)"
    unfolding np_level_def by (rule inner_loop_ok)
  have "\<forall>k\<in>set js. k + 1 < length (np_level disc q xs j)" using Cons.prems by simp
  from Cons.IH[OF this] i show ?case by simp
qed

lemma fill_upt:
  "n \<le> length xs \<Longrightarrow> foldl (\<lambda>v i. v[i := f i]) xs [0..<n] = map f [0..<n] @ drop n xs"
proof (induction n)
  case 0
  then show ?case by simp
next
  case (Suc n)
  then have "n < length xs" by simp
  then show ?case using Suc
    by (simp add: list_update_append upd_conv_take_nth_drop Cons_nth_drop_Suc)
qed

lemma lattice_pass_ok:
  assumes "0 \<le> n"
  shows "lattice_pass f disc q n = Inr (np_backward disc q (map f [0..<nat n + 1]) (nat n))"
proof -
  let ?zs = "replicate (nat (n + 1)) (Fin 0)"
  have z: "np_zeros (n + 1) = Inr ?zs" using assms by (simp add: np_zeros_def)
  have t: "terminal_loop f ?zs [0..<nat (n + 1)] = Inr (map f [0..<nat (n + 1)])"
    by (subst terminal_loop_ok) (simp_all add: fill_upt)
  have "\<forall>j\<in>set (rev [0..<nat n]). j + 1 < length (map f [0..<nat (n + 1)])"
    using assms by auto
  from backward_loop_ok[OF this, of disc q]
  show ?thesis using z t assms by (simp add: lattice_pass_def nat_add_distrib np_backward_def)
qed

lemma length_np_backward [simp]: "length (np_backward disc q v n) = length v"
  by (simp add: np_backward_def)

lemma np_pow_Fin [simp]: "np_pow (Fin a) n = Fin (a ^ n)"
  by (cases n) simp_all

lemma np_sub_Fin [simp]: "np_sub (Fin a) (Fin b) = Fin (a - b)"
  by (simp add: np_sub_def)

lemma py_max0_Fin: "py_max0 (Fin a) = Fin (max 0 a)"
  by (simp add: max_def)

lemma np_overwrite_Fin:
  "i + 1 < length v \<Longrightarrow>
   np_overwrite (Fin (exp (- r * dt))) (Fin q) (map Fin v) i = map Fin (spec_overwrite r dt q v i)"
  by (simp add: np_overwrite_def spec_overwrite_def map_update)

lemma length_spec_overwrite [simp]: "length (spec_overwrite r dt q v i) = length v"
  by (simp add: spec_overwrite_def)

lemma length_foldl_spec_overwrite [simp]:
  "length (foldl (spec_overwrite r dt q) v is) = length v"
  by (induction "is" arbitrary: v) simp_all

lemma length_spec_level [simp]: "length (spec_level r dt q v j) = length v"
  by (simp add: spec_level_def)

lemma length_foldl_spec_level [simp]:
  "length (foldl (spec_level r dt q) v js) = length v"
  by (induction js arbitrary: v) simp_all

lemma length_spec_backward [simp]: "length (spec_backward r dt q v n) = length v"
  by (simp add: spec_backward_def)

lemma foldl_np_overwrite_Fin:
  "\<forall>i\<in>set is. i + 1 < length v \<Longrightarrow>
   foldl (np_overwrite (Fin (exp (- r * dt))) (Fin q)) (map Fin v) is
     = map Fin (foldl (spec_overwrite r dt q) v is)"
proof (induction "is" arbitrary: v)
  case Nil
  then show ?case by simp
next
  case (Cons i "is")
  have 1: "i + 1 < length v" using Cons.prems by simp
  have 2: "\<forall>k\<in>set is. k + 1 < length (spec_overwrite r dt q v i)" using Cons.prems by simp
  show ?case unfolding foldl_Cons np_overwrite_Fin[OF 1] by (rule Cons.IH[OF 2])
qed

lemma np_level_Fin:
  "j + 1 < length v \<Longrightarrow>
   np_level (Fin (exp (- r * dt))) (Fin q) (map Fin v) j = map Fin (spec_level r dt q v j)"
  unfolding np_level_def spec_level_def by (rule foldl_np_overwrite_Fin) auto

lemma foldl_np_level_Fin:
  "\<forall>j\<in>set js. j + 1 < length v \<Longrightarrow>
   foldl (np_level (Fin (exp (- r * dt))) (Fin q)) (map Fin v) js
     = map Fin (foldl (spec_level r dt q) v js)"
proof (induction js arbitrary: v)
  case Nil
  then show ?case by simp
next
  case (Cons j js)
  have 1: "j + 1 < length v" using Cons.prems by simp
  have 2: "\<forall>k\<in>set js. k + 1 < length (spec_level r dt q v j)" using Cons.prems by simp
  show ?case unfolding foldl_Cons np_level_Fin[OF 1] by (rule Cons.IH[OF 2])
qed

lemma np_backward_Fin:
  "n < length v \<Longrightarrow>
   np_backward (Fin (exp (- r * dt))) (Fin q) (map Fin v) n = map Fin (spec_backward r dt q v n)"
  unfolding np_backward_def spec_backward_def by (rule foldl_np_level_Fin) auto

lemma spec_u_gt_1: "0 < vol \<Longrightarrow> 0 < dt \<Longrightarrow> 1 < spec_u vol dt"
  by (simp add: spec_u_def)

lemma spec_d_bounds: "0 < vol \<Longrightarrow> 0 < dt \<Longrightarrow> 0 < spec_d vol dt \<and> spec_d vol dt < 1"
  using spec_u_gt_1[of vol dt] by (simp add: spec_d_def)

lemma up_factor_Fin: "0 \<le> dt \<Longrightarrow> up_factor vol dt = Fin (spec_u vol dt)"
  by (simp add: up_factor_def np_sqrt_def spec_u_def)

lemma down_factor_Fin: "0 \<le> dt \<Longrightarrow> down_factor vol dt = Fin (spec_d vol dt)"
  by (simp add: down_factor_def up_factor_Fin spec_d_def spec_u_def)

lemma risk_neutral_Fin:
  assumes "0 < vol" "0 < dt"
  shows "risk_neutral vol r dt = Fin (spec_q vol r dt)"
proof -
  have "spec_u vol dt - spec_d vol dt \<noteq> 0"
    using spec_u_gt_1[OF assms] spec_d_bounds[OF assms] by simp
  then show ?thesis using assms
    by (simp add: risk_neutral_def up_factor_Fin down_factor_Fin spec_q_def)
qed

lemma nat_int_diff: "nat (int n - int i) = n - i"
  by simp

lemma call_payoff_Fin:
  "call_payoff K S (Fin u) (Fin d) n i = Fin (max 0 (S * u ^ i * d ^ nat (n - int i) - K))"
  by (simp add: call_payoff_def node_price_def py_max0_Fin)

lemma put_payoff_Fin:
  "put_payoff K S (Fin u) (Fin d) n i = Fin (max 0 (K - S * u ^ i * d ^ nat (n - int i)))"
  by (simp add: put_payoff_def node_price_def py_max0_Fin)

lemma call_terminal_Fin:
  "map (call_payoff K S (Fin u) (Fin d) (int n)) [0..<n + 1] = map Fin (spec_call_terminal K S u d n)"
  by (simp add: spec_call_terminal_def call_payoff_Fin nat_int_diff del: upt_Suc of_nat_diff)

lemma put_terminal_Fin:
  "map (put_payoff K S (Fin u) (Fin d) (int n)) [0..<n + 1] = map Fin (spec_put_terminal K S u d n)"
  by (simp add: spec_put_terminal_def put_payoff_Fin nat_int_diff del: upt_Suc of_nat_diff)

lemma np_backward_Nil_iff [simp]: "np_backward disc q v n = [] \<longleftrightarrow> v = []"
  using length_np_backward[of disc q v n] by (metis length_0_conv)

lemma price_passes_ok:
  assumes n: "1 \<le> steps self"
  defines "dt \<equiv> time_to_maturity self / real_of_int (steps self)"
  defines "u \<equiv> up_factor (volatility self) dt"
    and "d \<equiv> down_factor (volatility self) dt"
    and "q \<equiv> risk_neutral (volatility self) (interest_rate self) dt"
    and "disc \<equiv> discount (interest_rate self) dt"
  defines "cs \<equiv> np_backward disc q
             (map (call_payoff (strike self) (current_price self) u d (steps self))
                  [0..<nat (steps self) + 1]) (nat (steps self))"
    and "ps \<equiv> np_backward disc q
             (map (put_payoff (strike self) (current_price self) u d (steps self))
                  [0..<nat (steps self) + 1]) (nat (steps self))"
  shows "price_passes self = Inr (cs ! 0, ps ! 0, ps, u, d)"
proof -
  have s0: "steps self \<noteq> 0" "0 \<le> steps self" using n by simp_all
  have t: "py_truediv (time_to_maturity self) (steps self) = Inr dt"
    using s0 by (simp add: py_truediv_def dt_def)
  have c: "lattice_pass (call_payoff (strike self) (current_price self) u d (steps self))
             disc q (steps self) = Inr cs"
    unfolding cs_def by (rule lattice_pass_ok[OF s0(2)])
  have p: "lattice_pass (put_payoff (strike self) (current_price self) u d (steps self))
             disc q (steps self) = Inr ps"
    unfolding ps_def by (rule lattice_pass_ok[OF s0(2)])
  have l: "cs \<noteq> []" "ps \<noteq> []" by (simp_all add: cs_def ps_def)
  show ?thesis
    unfolding price_passes_def t
    by (simp add: Let_def u_def[symmetric] d_def[symmetric] q_def[symmetric]
        disc_def[symmetric] c p getitem_def l)
qed

lemma greeks_ok:
  "2 < length vs \<Longrightarrow>
   greeks vs S u d = Inr (delta_of (vs ! 1) (vs ! 0) S u d, gamma_of (vs ! 2) (vs ! 1) (vs ! 0) S u d)"
  by (auto simp add: greeks_def getitem_def)

lemma greeks_short: "length vs = 2 \<Longrightarrow> greeks vs S u d = Inl IndexError"
  by (simp add: greeks_def getitem_def)

lemma price_passes_valid:
  assumes T: "0 < time_to_maturity self" and vol: "0 < volatility self"
    and n: "1 \<le> steps self"
  defines "dt \<equiv> time_to_maturity self / real (nat (steps self))"
  shows "price_passes self =
     Inr (Fin (spec_call_price (time_to_maturity self) (strike self) (current_price self)
                 (volatility self) (interest_rate self) (nat (steps self))),
          Fin (spec_put_price (time_to_maturity self) (strike self) (current_price self)
                 (volatility self) (interest_rate self) (nat (steps self))),
          map Fin (spec_put_array (time_to_maturity self) (strike self) (current_price self)
                 (volatility self) (interest_rate self) (nat (steps self))),
          Fin (spec_u (volatility self) dt), Fin (spec_d (volatility self) dt))"
proof -
  define m where "m = nat (steps self)"
  have sm: "steps self = int m" and m: "1 \<le> m" using n by (simp_all add: m_def)
  have dt': "time_to_maturity self / real_of_int (steps self) = dt"
    by (simp add: dt_def sm)
  have dt0: "0 < dt" using T m by (simp add: dt_def m_def[symmetric])
  note F = up_factor_Fin[OF less_imp_le[OF dt0]] down_factor_Fin[OF less_imp_le[OF dt0]]
    risk_neutral_Fin[OF vol dt0]
  have len: "m < length (spec_call_terminal K S u d m)" "m < length (spec_put_terminal K S u d m)"
    for K S u d by (simp_all add: spec_call_terminal_def spec_put_terminal_def)
  have z: "0 < length (spec_call_array T K S v r m)" "0 < length (spec_put_array T K S v r m)"
    for T K S v r
    by (simp_all add: spec_call_array_def spec_put_array_def Let_def
        spec_call_terminal_def spec_put_terminal_def)
  show ?thesis
    unfolding price_passes_ok[OF n] dt' F discount_def np_exp.simps
    unfolding sm nat_int call_terminal_Fin put_terminal_Fin
      np_backward_Fin[OF len(1)] np_backward_Fin[OF len(2)]
    unfolding m_def[symmetric] spec_call_price_def spec_put_price_def
      spec_call_array_def spec_put_array_def Let_def dt_def[symmetric, unfolded m_def[symmetric]]
    using z[unfolded spec_call_array_def spec_put_array_def Let_def]
    by (simp add: spec_call_terminal_def spec_put_terminal_def del: upt_Suc)
qed

lemma run_sets_prices:
  assumes "0 < time_to_maturity self" "0 < volatility self" "1 \<le> steps self"
  shows "call_price (snd (run self)) =
           Some (Fin (spec_call_price (time_to_maturity self) (strike self) (current_price self)
                        (volatility self) (interest_rate self) (nat (steps self))))
       \<and> put_price (snd (run self)) =
           Some (Fin (spec_put_price (time_to_maturity self) (strike self) (current_price self)
                        (volatility self) (interest_rate self) (nat (steps self))))"
  using assms
  by (simp add: run_def price_passes_valid Let_def split: sum.splits prod.splits)

lemma delta_of_Fin:
  "S * u - S * d \<noteq> 0 \<Longrightarrow>
   delta_of (Fin a) (Fin b) S (Fin u) (Fin d) = Fin ((a - b) / (S * u - S * d))"
  by (simp add: delta_of_def)

lemma length_spec_put_array [simp]: "length (spec_put_array T K S vol r n) = n + 1"
  by (simp add: spec_put_array_def Let_def spec_put_terminal_def)

lemma run_delta_finite:
  assumes "0 < time_to_maturity self" "0 < current_price self" "0 < volatility self"
    "2 \<le> steps self"
  shows "\<exists>x. call_delta (snd (run self)) = Some (Fin x)"
proof -
  have n1: "1 \<le> steps self" using assms(4) by simp
  define dt where "dt = time_to_maturity self / real (nat (steps self))"
  have dt0: "0 < dt" using assms(1,4) by (simp add: dt_def)
  let ?w = "spec_put_array (time_to_maturity self) (strike self) (current_price self)
              (volatility self) (interest_rate self) (nat (steps self))"
  have len: "2 < length (map Fin ?w)" using assms(4) by simp
  have "spec_d (volatility self) dt < spec_u (volatility self) dt"
    using spec_u_gt_1[OF assms(3) dt0] spec_d_bounds[OF assms(3) dt0] by simp
  then have "current_price self * spec_d (volatility self) dt
             < current_price self * spec_u (volatility self) dt"
    using assms(2) by simp
  then have ud: "current_price self * spec_u (volatility self) dt
                 - current_price self * spec_d (volatility self) dt \<noteq> 0" by linarith
  have w: "map Fin ?w ! 1 = Fin (?w ! 1)" "map Fin ?w ! 0 = Fin (?w ! 0)"
    using assms(4) by (simp_all del: One_nat_def)
  show ?thesis
    unfolding run_def price_passes_valid[OF assms(1,3) n1] dt_def[symmetric]
    by (simp add: greeks_ok[OF len] w delta_of_Fin[OF ud] del: One_nat_def)
qed

lemma price_passes_length:
  assumes "1 \<le> steps self" and "price_passes self = Inr (cp, pp, vs, u, d)"
  shows "length vs = nat (steps self) + 1"
  using assms(2) unfolding price_passes_ok[OF assms(1)] by auto

lemma run_returns: "2 \<le> steps self \<Longrightarrow> fst (run self) = Returned ()"
proof -
  assume n: "2 \<le> steps self"
  then have n1: "1 \<le> steps self" by simp
  obtain cp pp vs u d where p: "price_passes self = Inr (cp, pp, vs, u, d)"
    using price_passes_ok[OF n1] by simp
  have "2 < length vs" using price_passes_length[OF n1 p] n by simp
  then show ?thesis by (simp add: run_def p greeks_ok)
qed

lemma price_passes_InrD:
  assumes "price_passes self = Inr (cp, pp, vs, u, d)"
  shows "\<exists>dt. py_truediv (time_to_maturity self) (steps self) = Inr dt
           \<and> u = up_factor (volatility self) dt \<and> d = down_factor (volatility self) dt
           \<and> lattice_pass (put_payoff (strike self) (current_price self) u d (steps self))
                (discount (interest_rate self) dt)
                (risk_neutral (volatility self) (interest_rate self) dt) (steps self) = Inr vs
           \<and> getitem vs 0 = Inr pp"
  using assms by (auto simp add: price_passes_def Let_def split: sum.splits)

lemma greeks_InrD:
  assumes "greeks vs S u d = Inr (delta, gamma)"
  shows "2 < length vs \<and> delta = delta_of (vs ! 1) (vs ! 0) S u d
         \<and> gamma = gamma_of (vs ! 2) (vs ! 1) (vs ! 0) S u d"
  using assms by (auto simp add: greeks_def getitem_def split: sum.splits if_splits)

lemma run_ReturnedD:
  assumes "fst (run self) = Returned ()"
  shows "\<exists>cp pp vs u d delta gamma.
           price_passes self = Inr (cp, pp, vs, u, d)
         \<and> greeks vs (current_price self) u d = Inr (delta, gamma)
         \<and> snd (run self) = self\<lparr>call_price := Some cp, put_price := Some pp,
               call_delta := Some delta, put_delta := Some (np_sub (Fin 1) delta),
               call_gamma := Some gamma, put_gamma := Some gamma\<rparr>"
  using assms by (auto simp add: run_def Let_def split: sum.splits prod.splits)

lemma calculate_prices_ReturnedD:
  assumes "fst (calculate_prices self) = Returned r"
  shows "\<exists>cp pp vs u d delta gamma.
           price_passes self = Inr (cp, pp, vs, u, d)
         \<and> greeks vs (current_price self) u d = Inr (delta, gamma)
         \<and> r = (cp, pp)
         \<and> snd (calculate_prices self) = self\<lparr>call_price := Some cp, put_price := Some pp,
               call_delta := Some delta, put_delta := Some (np_sub (Fin 1) delta),
               call_gamma := Some gamma, put_gamma := Some gamma\<rparr>"
  using assms by (auto simp add: calculate_prices_def Let_def split: sum.splits prod.splits)

lemma np_div_zero_not_finite: "\<not> is_finite (np_div x (Fin 0))"
  by (cases x) simp_all

lemma np_neg_not_finite: "\<not> is_finite y \<Longrightarrow> \<not> is_finite (np_neg y)"
  by (cases y) simp_all

lemma np_add_not_finite_left: "\<not> is_finite x \<Longrightarrow> \<not> is_finite (np_add x y)"
  by (cases x; cases y) simp_all

lemma np_add_not_finite_right: "\<not> is_finite y \<Longrightarrow> \<not> is_finite (np_add x y)"
  by (cases x; cases y) simp_all

lemma np_sub_not_finite_right: "\<not> is_finite y \<Longrightarrow> \<not> is_finite (np_sub x y)"
  unfolding np_sub_def by (rule np_add_not_finite_right) (rule np_neg_not_finite)

lemma np_mul_not_finite_left: "\<not> is_finite x \<Longrightarrow> \<not> is_finite (np_mul x y)"
  by (cases x; cases y) simp_all

lemma np_mul_not_finite_right: "\<not> is_finite y \<Longrightarrow> \<not> is_finite (np_mul x y)"
  by (cases x; cases y) simp_all

lemma overwritten_not_finite:
  "\<not> is_finite q \<Longrightarrow>
   \<not> is_finite (np_mul disc (np_add (np_mul q a) (np_mul (np_sub (Fin 1) q) b)))"
  by (intro np_mul_not_finite_right np_add_not_finite_left np_mul_not_finite_left)

lemma np_backward_last_level:
  assumes "0 < n"
  shows "np_backward disc q v n
           = np_overwrite disc q (foldl (np_level disc q) v (rev [1..<n])) 0"
proof -
  have "[0..<n] = 0 # [1..<n]" using assms by (simp add: upt_conv_Cons)
  then show ?thesis by (simp add: np_backward_def np_level_def)
qed

lemma np_backward_head_not_finite:
  assumes "0 < n" "v \<noteq> []" "\<not> is_finite q"
  shows "\<not> is_finite (np_backward disc q v n ! 0)"
proof -
  let ?w = "foldl (np_level disc q) v (rev [1..<n])"
  have "0 < length ?w" using assms(2) by simp
  then show ?thesis
    unfolding np_backward_last_level[OF assms(1)] np_overwrite_def
    using overwritten_not_finite[OF assms(3)] by simp
qed

lemma zero_vol_factors:
  assumes "0 \<le> dt"
  shows "up_factor 0 dt = Fin 1" "down_factor 0 dt = Fin 1"
    "\<not> is_finite (risk_neutral 0 r dt)"
proof -
  show u: "up_factor 0 dt = Fin 1" using assms by (simp add: up_factor_def np_sqrt_def)
  show d: "down_factor 0 dt = Fin 1" by (simp add: down_factor_def u)
  show "\<not> is_finite (risk_neutral 0 r dt)"
    by (simp add: risk_neutral_def u d np_div_zero_not_finite)
qed

lemma zero_vol_greeks:
  "\<not> is_finite (delta_of a b S (Fin 1) (Fin 1))"
  "\<not> is_finite (gamma_of c a b S (Fin 1) (Fin 1))"
  by (simp_all add: delta_of_def gamma_of_def np_div_zero_not_finite)

lemma spec_overwrite_nonneg:
  assumes "0 \<le> q" "q \<le> 1" "i + 1 < length v" "\<forall>x\<in>set v. 0 \<le> x"
  shows "\<forall>x\<in>set (spec_overwrite r dt q v i). 0 \<le> x"
proof -
  have a: "0 \<le> v ! (i + 1)" "0 \<le> v ! i" using assms(3,4) by simp_all
  have "0 \<le> q * v ! (i + 1) + (1 - q) * v ! i" using assms(1,2) a by simp
  then have y: "0 \<le> exp (- r * dt) * (q * v ! (i + 1) + (1 - q) * v ! i)" by simp
  show ?thesis unfolding spec_overwrite_def
    using set_update_subset_insert[of v i] y assms(4) by blast
qed

lemma foldl_spec_overwrite_nonneg:
  assumes "0 \<le> q" "q \<le> 1"
  shows "\<forall>i\<in>set is. i + 1 < length v \<Longrightarrow> \<forall>x\<in>set v. 0 \<le> x \<Longrightarrow>
         \<forall>x\<in>set (foldl (spec_overwrite r dt q) v is). 0 \<le> x"
proof (induction "is" arbitrary: v)
  case Nil
  then show ?case by simp
next
  case (Cons i "is")
  have 1: "i + 1 < length v" using Cons.prems(1) by simp
  have 2: "\<forall>k\<in>set is. k + 1 < length (spec_overwrite r dt q v i)" using Cons.prems(1) by simp
  show ?case unfolding foldl_Cons
    by (rule Cons.IH[OF 2 spec_overwrite_nonneg[OF assms 1 Cons.prems(2)]])
qed

lemma spec_level_nonneg:
  assumes "0 \<le> q" "q \<le> 1" "j + 1 < length v" "\<forall>x\<in>set v. 0 \<le> x"
  shows "\<forall>x\<in>set (spec_level r dt q v j). 0 \<le> x"
  unfolding spec_level_def
proof (rule foldl_spec_overwrite_nonneg[OF assms(1,2) _ assms(4)])
  show "\<forall>i\<in>set [0..<j + 1]. i + 1 < length v" using assms(3) by auto
qed

lemma foldl_spec_level_nonneg:
  assumes "0 \<le> q" "q \<le> 1"
  shows "\<forall>j\<in>set js. j + 1 < length v \<Longrightarrow> \<forall>x\<in>set v. 0 \<le> x \<Longrightarrow>
         \<forall>x\<in>set (foldl (spec_level r dt q) v js). 0 \<le> x"
proof (induction js arbitrary: v)
  case Nil
  then show ?case by simp
next
  case (Cons j js)
  have 1: "j + 1 < length v" using Cons.prems(1) by simp
  have 2: "\<forall>k\<in>set js. k + 1 < length (spec_level r dt q v j)" using Cons.prems(1) by simp
  show ?case unfolding foldl_Cons
    by (rule Cons.IH[OF 2 spec_level_nonneg[OF assms 1 Cons.prems(2)]])
qed

lemma spec_backward_nonneg:
  assumes "0 \<le> q" "q \<le> 1" "n < length v" "\<forall>x\<in>set v. 0 \<le> x"
  shows "\<forall>x\<in>set (spec_backward r dt q v n). 0 \<le> x"
  unfolding spec_backward_def
proof (rule foldl_spec_level_nonneg[OF assms(1,2) _ assms(4)])
  show "\<forall>j\<in>set (rev [0..<n]). j + 1 < length v" using assms(3) by auto
qed

lemma spec_prices_nonneg:
  assumes "0 \<le> spec_q vol r (T / real n)" "spec_q vol r (T / real n) \<le> 1"
  shows "0 \<le> spec_call_price T K S vol r n" "0 \<le> spec_put_price T K S vol r n"
proof -
  let ?dt = "T / real n"
  let ?c = "spec_call_terminal K S (spec_u vol ?dt) (spec_d vol ?dt) n"
  let ?p = "spec_put_terminal K S (spec_u vol ?dt) (spec_d vol ?dt) n"
  have c: "n < length ?c" "\<forall>x\<in>set ?c. 0 \<le> x" by (auto simp add: spec_call_terminal_def)
  have p: "n < length ?p" "\<forall>x\<in>set ?p. 0 \<le> x" by (auto simp add: spec_put_terminal_def)
  have "\<forall>x\<in>set (spec_call_array T K S vol r n). 0 \<le> x"
    unfolding spec_call_array_def Let_def by (rule spec_backward_nonneg[OF assms c])
  moreover have "0 < length (spec_call_array T K S vol r n)"
    by (simp add: spec_call_array_def Let_def spec_call_terminal_def)
  ultimately show "0 \<le> spec_call_price T K S vol r n"
    unfolding spec_call_price_def using nth_mem by blast
  have "\<forall>x\<in>set (spec_put_array T K S vol r n). 0 \<le> x"
    unfolding spec_put_array_def Let_def by (rule spec_backward_nonneg[OF assms p])
  moreover have "0 < length (spec_put_array T K S vol r n)"
    by (simp add: spec_put_array_def Let_def spec_put_terminal_def)
  ultimately show "0 \<le> spec_put_price T K S vol r n"
    unfolding spec_put_price_def using nth_mem by blast
qed

lemma spec_q_unit:
  assumes "0 < vol" "0 < dt" "spec_d vol dt \<le> exp (r * dt)" "exp (r * dt) \<le> spec_u vol dt"
  shows "0 \<le> spec_q vol r dt \<and> spec_q vol r dt \<le> 1"
proof -
  have "0 < spec_u vol dt - spec_d vol dt"
    using spec_u_gt_1[OF assms(1,2)] spec_d_bounds[OF assms(1,2)] by simp
  then show ?thesis using assms(3,4) by (simp add: spec_q_def)
qed

lemma fill_enumerate:
  "length xs \<le> length row \<Longrightarrow>
   foldl (\<lambda>row (j, x). row[j := f x]) row (enumerate 0 xs) = map f xs @ drop (length xs) row"
proof (induction xs rule: rev_induct)
  case Nil
  then show ?case by simp
next
  case (snoc x xs)
  then have "length xs < length row" by simp
  then show ?case using snoc
    by (simp add: enumerate_append_eq list_update_append upd_conv_take_nth_drop
        Cons_nth_drop_Suc)
qed

lemma calculate_prices_ok:
  assumes "2 \<le> steps self"
  shows "\<exists>cp pp t. calculate_prices self = (Returned (cp, pp), t)
           \<and> call_price t = Some cp \<and> put_price t = Some pp"
proof -
  have n1: "1 \<le> steps self" using assms by simp
  obtain cp pp vs u d where p: "price_passes self = Inr (cp, pp, vs, u, d)"
    using price_passes_ok[OF n1] by simp
  have "2 < length vs" using price_passes_length[OF n1 p] assms by simp
  then show ?thesis by (simp add: calculate_prices_def p greeks_ok)
qed

lemma steps_binomial_temp [simp]: "steps (binomial_temp bm K vol spot) = steps bm"
  by (simp add: binomial_temp_def init_def)

lemma spot_loop_ok:
  assumes n: "2 \<le> steps bm"
  shows "i < length cg \<Longrightarrow> i < length pg \<Longrightarrow>
     \<forall>(j, s)\<in>set js. j < length (cg ! i) \<and> j < length (pg ! i) \<Longrightarrow>
     spot_loop bm K i vol (cg, pg) js =
       Inr (cg[i := foldl (\<lambda>row (j, s). row[j := fst (returned_value (fst (calculate_prices (binomial_temp bm K vol s))))]) (cg ! i) js],
            pg[i := foldl (\<lambda>row (j, s). row[j := snd (returned_value (fst (calculate_prices (binomial_temp bm K vol s))))]) (pg ! i) js])"
proof (induction js arbitrary: cg pg)
  case Nil
  then show ?case by simp
next
  case (Cons a js)
  obtain j s where a: "a = (j, s)" by (cases a)
  obtain cp pp t where c: "calculate_prices (binomial_temp bm K vol s) = (Returned (cp, pp), t)"
    "call_price t = Some cp" "put_price t = Some pp"
    using calculate_prices_ok[of "binomial_temp bm K vol s"] n by auto
  let ?cg = "cg[i := (cg ! i)[j := cp]]" and ?pg = "pg[i := (pg ! i)[j := pp]]"
  have b: "j < length (cg ! i)" "j < length (pg ! i)" using Cons.prems(3) a by simp_all
  have 1: "i < length ?cg" "i < length ?pg" using Cons.prems(1,2) by simp_all
  have 2: "\<forall>(j, s)\<in>set js. j < length (?cg ! i) \<and> j < length (?pg ! i)"
    using Cons.prems by auto
  have "spot_loop bm K i vol (cg, pg) (a # js) = spot_loop bm K i vol (?cg, ?pg) js"
    using Cons.prems(1,2) b by (simp add: a c getattr_def setitem2_def)
  also note Cons.IH[OF 1 2]
  finally show ?case using Cons.prems(1,2) by (simp add: a c)
qed

lemma spot_loop_full:
  assumes n: "2 \<le> steps bm" and i: "i < length cg" "i < length pg"
    and l: "length (cg ! i) = length spots" "length (pg ! i) = length spots"
  shows "spot_loop bm K i vol (cg, pg) (enumerate 0 spots) =
       Inr (cg[i := map (\<lambda>s. fst (returned_value (fst (calculate_prices (binomial_temp bm K vol s))))) spots],
            pg[i := map (\<lambda>s. snd (returned_value (fst (calculate_prices (binomial_temp bm K vol s))))) spots])"
proof -
  have b: "\<forall>(j, s)\<in>set (enumerate 0 spots). j < length (cg ! i) \<and> j < length (pg ! i)"
    using l by (auto simp add: in_set_enumerate_eq)
  show ?thesis
    unfolding spot_loop_ok[OF n i b] using l by (simp add: fill_enumerate)
qed

lemma vol_loop_ok:
  assumes n: "2 \<le> steps bm"
  shows "length pg = length cg \<Longrightarrow>
     \<forall>row\<in>set cg. length row = length spots \<Longrightarrow>
     \<forall>row\<in>set pg. length row = length spots \<Longrightarrow>
     \<forall>(i, v)\<in>set is. i < length cg \<Longrightarrow>
     vol_loop bm K spots (cg, pg) is =
       Inr (foldl (\<lambda>g (i, v). g[i := map (\<lambda>s. fst (returned_value (fst (calculate_prices (binomial_temp bm K v s))))) spots]) cg is,
            foldl (\<lambda>g (i, v). g[i := map (\<lambda>s. snd (returned_value (fst (calculate_prices (binomial_temp bm K v s))))) spots]) pg is)"
proof (induction "is" arbitrary: cg pg)
  case Nil
  then show ?case by simp
next
  case (Cons a "is")
  obtain i v where a: "a = (i, v)" by (cases a)
  let ?c = "map (\<lambda>s. fst (returned_value (fst (calculate_prices (binomial_temp bm K v s))))) spots"
  let ?p = "map (\<lambda>s. snd (returned_value (fst (calculate_prices (binomial_temp bm K v s))))) spots"
  have i: "i < length cg" "i < length pg" using Cons.prems a by simp_all
  have l: "length (cg ! i) = length spots" "length (pg ! i) = length spots"
    using Cons.prems(2,3) i by simp_all
  have s: "spot_loop bm K i v (cg, pg) (enumerate 0 spots) = Inr (cg[i := ?c], pg[i := ?p])"
    by (rule spot_loop_full[OF n i l])
  have 1: "length (pg[i := ?p]) = length (cg[i := ?c])" using Cons.prems(1) by simp
  have 2: "\<forall>row\<in>set (cg[i := ?c]). length row = length spots"
    using Cons.prems(2) set_update_subset_insert[of cg i ?c] by auto
  have 3: "\<forall>row\<in>set (pg[i := ?p]). length row = length spots"
    using Cons.prems(3) set_update_subset_insert[of pg i ?p] by auto
  have 4: "\<forall>(k, v)\<in>set is. k < length (cg[i := ?c])" using Cons.prems(4) by simp
  show ?case unfolding a vol_loop.simps s using Cons.IH[OF 1 2 3 4] by simp
qed

lemma plot_heatmap_ok:
  assumes n: "2 \<le> steps bm"
  shows "plot_heatmap bm spots vols K =
    Inr (map (\<lambda>v. map (\<lambda>s. fst (returned_value (fst (calculate_prices (binomial_temp bm K v s))))) spots) vols,
         map (\<lambda>v. map (\<lambda>s. snd (returned_value (fst (calculate_prices (binomial_temp bm K v s))))) spots) vols)"
proof -
  let ?z = "np_zeros2 (length vols) (length spots)"
  have 1: "length ?z = length ?z" ..
  have 2: "\<forall>row\<in>set ?z. length row = length spots" by (simp add: np_zeros2_def)
  have 4: "\<forall>(i, v)\<in>set (enumerate 0 vols). i < length ?z"
    by (auto simp add: in_set_enumerate_eq np_zeros2_def)
  have l: "length vols \<le> length ?z" by (simp add: np_zeros2_def)
  show ?thesis
    unfolding plot_heatmap_def vol_loop_ok[OF n 1 2 2 4] fill_enumerate[OF l]
    by (simp add: np_zeros2_def)
qed

section \<open>The claims\<close>

subsection \<open>C1: the two prices are the two-pass algorithm\<close>

text \<open>
  C1. For every parameter set with \<open>time_to_maturity > 0\<close>, \<open>strike > 0\<close>,
  \<open>current_price > 0\<close>, \<open>volatility > 0\<close> and \<open>steps \<ge> 1\<close>, the call price and the put
  price that \<open>run\<close> stores equal the result of the two-pass algorithm of the
  specification: the terminal payoff vector of length \<open>steps + 1\<close>, the in-place backward
  induction, and entry 0 of the array. (With \<open>steps = 1\<close> the two prices are stored before
  the Greek lines raise.)
\<close>

theorem run_prices:
  assumes "0 < time_to_maturity self" "0 < strike self" "0 < current_price self"
    "0 < volatility self" "1 \<le> steps self"
  shows "call_price (snd (run self)) =
           Some (Fin (spec_call_price (time_to_maturity self) (strike self) (current_price self)
                        (volatility self) (interest_rate self) (nat (steps self))))
       \<and> put_price (snd (run self)) =
           Some (Fin (spec_put_price (time_to_maturity self) (strike self) (current_price self)
                        (volatility self) (interest_rate self) (nat (steps self))))"
  using assms(1,4,5) by (rule run_sets_prices)

text \<open>C1 at \<open>T = 2\<close>, \<open>K = 90\<close>, \<open>S = 100\<close>, \<open>\<sigma> = 1/5\<close>, \<open>r = 1/20\<close>, \<open>steps = 100\<close>,
  the parameters of the model file's main block.\<close>

theorem run_prices_witness:
  "call_price (snd (run (init 2 90 100 (1 / 5) (1 / 20) 100)))
     = Some (Fin (spec_call_price 2 90 100 (1 / 5) (1 / 20) 100))
 \<and> put_price (snd (run (init 2 90 100 (1 / 5) (1 / 20) 100)))
     = Some (Fin (spec_put_price 2 90 100 (1 / 5) (1 / 20) 100))"
  using run_prices[of "init 2 90 100 (1 / 5) (1 / 20) 100"] by (simp add: init_def)

subsection \<open>C2: one step\<close>

text \<open>
  C2 says that the pricing call is total for \<open>steps \<ge> 1\<close>, the Greek reads at indices
  0, 1 and 2 included. With \<open>steps = 1\<close> the put array has length 2 and the read of index 2
  in the gamma line raises IndexError, whatever the other five parameters are, in both
  copies of the method.
\<close>

theorem one_step_raises:
  "fst (run (init T K S vol r 1)) = Raised IndexError
 \<and> fst (calculate_prices (init T K S vol r 1)) = Raised IndexError"
proof -
  have n: "1 \<le> steps (init T K S vol r 1)" by (simp add: init_def)
  obtain cp pp vs u d where p: "price_passes (init T K S vol r 1) = Inr (cp, pp, vs, u, d)"
    using price_passes_ok[OF n] by simp
  have "length vs = 2" using price_passes_length[OF n p] by (simp add: init_def)
  then show ?thesis by (simp add: run_def calculate_prices_def p greeks_short)
qed

subsection \<open>C3: the Greeks read the array of the put pass\<close>

text \<open>
  C3. For every call of \<open>run\<close> that returns, the array \<open>vs\<close> that the put pass leaves
  has more than two entries, its entry 0 is the put price, and
  \<open>call_delta = (vs[1] - vs[0]) / (S*u - S*d)\<close>,
  \<open>call_gamma = put_gamma = (vs[2] - 2*vs[1] + vs[0]) / (0.5 * (S*u - S*d)^2)\<close>:
  the Greeks are read from that array and from nothing else.
\<close>

theorem greeks_read_put_array:
  assumes "fst (run self) = Returned ()"
  shows "\<exists>dt vs u d.
      py_truediv (time_to_maturity self) (steps self) = Inr dt
    \<and> u = up_factor (volatility self) dt \<and> d = down_factor (volatility self) dt
    \<and> lattice_pass (put_payoff (strike self) (current_price self) u d (steps self))
         (discount (interest_rate self) dt)
         (risk_neutral (volatility self) (interest_rate self) dt) (steps self) = Inr vs
    \<and> 2 < length vs
    \<and> put_price (snd (run self)) = Some (vs ! 0)
    \<and> call_delta (snd (run self)) =
         Some (np_div (np_sub (vs ! 1) (vs ! 0))
                 (np_sub (np_mul (Fin (current_price self)) u)
                         (np_mul (Fin (current_price self)) d)))
    \<and> call_gamma (snd (run self)) =
         Some (np_div (np_add (np_sub (vs ! 2) (np_mul (Fin 2) (vs ! 1))) (vs ! 0))
                 (np_mul (Fin (1 / 2))
                    (np_pow (np_sub (np_mul (Fin (current_price self)) u)
                                    (np_mul (Fin (current_price self)) d)) 2)))
    \<and> put_gamma (snd (run self)) = call_gamma (snd (run self))"
proof -
  from run_ReturnedD[OF assms] obtain cp pp vs u d delta gamma where
    p: "price_passes self = Inr (cp, pp, vs, u, d)"
    and g: "greeks vs (current_price self) u d = Inr (delta, gamma)"
    and s: "snd (run self) = self\<lparr>call_price := Some cp, put_price := Some pp,
               call_delta := Some delta, put_delta := Some (np_sub (Fin 1) delta),
               call_gamma := Some gamma, put_gamma := Some gamma\<rparr>"
    by blast
  from price_passes_InrD[OF p] obtain dt where
    d: "py_truediv (time_to_maturity self) (steps self) = Inr dt"
      "u = up_factor (volatility self) dt" "d = down_factor (volatility self) dt"
      "lattice_pass (put_payoff (strike self) (current_price self) u d (steps self))
                (discount (interest_rate self) dt)
                (risk_neutral (volatility self) (interest_rate self) dt) (steps self) = Inr vs"
      "getitem vs 0 = Inr pp"
    by blast
  note G = greeks_InrD[OF g]
  have pp: "pp = vs ! 0" using d(5) G by (simp add: getitem_def split: if_splits)
  show ?thesis
    apply (rule exI[of _ dt], rule exI[of _ vs], rule exI[of _ u], rule exI[of _ d])
    using d(1-4) G pp by (simp add: s delta_of_def gamma_of_def)
qed

text \<open>C3 at \<open>T = 1\<close>, \<open>K = 1\<close>, \<open>S = 1\<close>, \<open>\<sigma> = 1\<close>, \<open>r = 0\<close>, \<open>steps = 2\<close>, where
  \<open>run\<close> returns.\<close>

theorem greeks_read_put_array_witness:
  "fst (run (init 1 1 1 1 0 2)) = Returned ()
 \<and> (\<exists>vs. lattice_pass (put_payoff 1 1 (up_factor 1 (1 / 2)) (down_factor 1 (1 / 2)) 2)
            (discount 0 (1 / 2)) (risk_neutral 1 0 (1 / 2)) 2 = Inr vs
        \<and> 2 < length vs
        \<and> call_delta (snd (run (init 1 1 1 1 0 2))) =
            Some (np_div (np_sub (vs ! 1) (vs ! 0))
                    (np_sub (np_mul (Fin 1) (up_factor 1 (1 / 2)))
                            (np_mul (Fin 1) (down_factor 1 (1 / 2))))))"
proof -
  let ?p = "init 1 1 1 1 0 2"
  have r: "fst (run ?p) = Returned ()"
    by (rule run_returns) (simp add: init_def)
  from greeks_read_put_array[OF r] obtain dt vs u d where
    a: "py_truediv (time_to_maturity ?p) (steps ?p) = Inr dt"
      "u = up_factor (volatility ?p) dt" "d = down_factor (volatility ?p) dt"
      "lattice_pass (put_payoff (strike ?p) (current_price ?p) u d (steps ?p))
         (discount (interest_rate ?p) dt)
         (risk_neutral (volatility ?p) (interest_rate ?p) dt) (steps ?p) = Inr vs"
      "2 < length vs"
      "call_delta (snd (run ?p)) =
         Some (np_div (np_sub (vs ! 1) (vs ! 0))
                 (np_sub (np_mul (Fin (current_price ?p)) u)
                         (np_mul (Fin (current_price ?p)) d)))"
    by blast
  have dt: "dt = 1 / 2" using a(1) by (simp add: init_def py_truediv_def)
  have f: "time_to_maturity ?p = 1" "strike ?p = 1" "current_price ?p = 1"
    "volatility ?p = 1" "interest_rate ?p = 0" "steps ?p = 2" by (simp_all add: init_def)
  show ?thesis
    using r a(4,5,6) unfolding a(2,3) dt f by blast
qed

subsection \<open>C4: the delta and gamma identities\<close>

text \<open>
  C4 says that every call that returns has \<open>put_delta + call_delta = 1\<close>. With
  \<open>volatility = 0\<close> and \<open>steps = 2\<close> the call returns, both deltas are NaN, and their sum
  is NaN, not 1.
\<close>

theorem delta_sum_nan_example:
  "fst (run (init 2 90 100 0 0 2)) = Returned ()
 \<and> put_delta (snd (run (init 2 90 100 0 0 2))) = Some NaN
 \<and> call_delta (snd (run (init 2 90 100 0 0 2))) = Some NaN
 \<and> np_add NaN NaN = NaN"
proof -
  have n: "1 \<le> steps (init 2 90 100 0 0 2)" by (simp add: init_def)
  have u: "[0..<3] = [0, 1, 2]" "[0..<2] = [0, 1]" by (simp_all add: upt_conv_Cons)
  show ?thesis
    unfolding run_def price_passes_ok[OF n]
    by (simp add: init_def zero_vol_factors risk_neutral_def discount_def np_backward_def
        np_level_def np_overwrite_def call_payoff_def put_payoff_def node_price_def u
        greeks_def getitem_def delta_of_def gamma_of_def np_sub_def
        numeral_2_eq_2 numeral_3_eq_3)
qed

text \<open>
  C4, amended. For every call of \<open>run\<close> that returns with a finite \<open>call_delta = x\<close>,
  \<open>put_delta\<close> is \<open>1 - x\<close>, so that \<open>put_delta + call_delta = 1\<close>; and \<open>call_gamma\<close> and
  \<open>put_gamma\<close> hold the same value.
\<close>

theorem delta_gamma_identities:
  assumes "fst (run self) = Returned ()" and "call_delta (snd (run self)) = Some (Fin x)"
  shows "put_delta (snd (run self)) = Some (Fin (1 - x))
       \<and> np_add (Fin (1 - x)) (Fin x) = Fin 1
       \<and> call_gamma (snd (run self)) = put_gamma (snd (run self))"
  using run_ReturnedD[OF assms(1)] assms(2) by auto

text \<open>The amended C4 at \<open>T = 1\<close>, \<open>K = 1\<close>, \<open>S = 1\<close>, \<open>\<sigma> = 1\<close>, \<open>r = 0\<close>,
  \<open>steps = 2\<close>, where \<open>run\<close> returns a finite delta.\<close>

theorem delta_gamma_identities_witness:
  "fst (run (init 1 1 1 1 0 2)) = Returned ()
 \<and> (\<exists>x. call_delta (snd (run (init 1 1 1 1 0 2))) = Some (Fin x)
        \<and> put_delta (snd (run (init 1 1 1 1 0 2))) = Some (Fin (1 - x))
        \<and> np_add (Fin (1 - x)) (Fin x) = Fin 1)"
proof -
  have r: "fst (run (init 1 1 1 1 0 2)) = Returned ()"
    by (rule run_returns) (simp add: init_def)
  obtain x where x: "call_delta (snd (run (init 1 1 1 1 0 2))) = Some (Fin x)"
    using run_delta_finite[of "init 1 1 1 1 0 2"] by (auto simp add: init_def)
  from delta_gamma_identities[OF r x] r x show ?thesis by blast
qed

subsection \<open>C5: the sign of the prices\<close>

text \<open>
  C5 says that both prices are non-negative for all valid parameters, also when the
  risk-neutral probability is outside \<open>[0, 1]\<close>. At \<open>T = 3\<close>, \<open>K = 2\<close>, \<open>S = 8\<close>,
  \<open>\<sigma> = ln 2\<close>, \<open>r = ln 4\<close>, \<open>steps = 3\<close> the factors are \<open>u = 2\<close>, \<open>d = 1/2\<close>, the
  probability is \<open>q = 7/3\<close>, the call returns, and the put price is \<open>-1/27\<close>.
\<close>

theorem negative_put_example:
  "fst (run (init 3 2 8 (ln 2) (ln 4) 3)) = Returned ()
 \<and> risk_neutral (ln 2) (ln 4) (3 / real_of_int 3) = Fin (7 / 3)
 \<and> put_price (snd (run (init 3 2 8 (ln 2) (ln 4) 3))) = Some (Fin (- 1 / 27))"
proof -
  have r: "fst (run (init 3 2 8 (ln 2) (ln 4) 3)) = Returned ()"
    by (rule run_returns) (simp add: init_def)
  have u: "spec_u (ln 2) 1 = 2" "spec_d (ln 2) 1 = 1 / 2" by (simp_all add: spec_u_def spec_d_def)
  have q: "spec_q (ln 2) (ln 4) 1 = 7 / 3" by (simp add: spec_q_def u)
  have e: "exp (- ln 4) = (1 / 4 :: real)" by (simp add: exp_minus)
  have l: "[0..<4] = [0, 1, 2, 3]" "[0..<3] = [0, 1, 2]" "[0..<2] = [0, 1]"
    by (simp_all add: upt_conv_Cons)
  have p: "spec_put_price 3 2 8 (ln 2) (ln 4) 3 = - 1 / 27"
    by (simp add: spec_put_price_def spec_put_array_def u q spec_put_terminal_def l
        spec_backward_def spec_level_def spec_overwrite_def e numeral_3_eq_3 numeral_2_eq_2)
  have rn: "risk_neutral (ln 2) (ln 4) (3 / real_of_int 3) = Fin (7 / 3)"
    using risk_neutral_Fin[of "ln 2" 1 "ln 4"] q by simp
  have "put_price (snd (run (init 3 2 8 (ln 2) (ln 4) 3))) = Some (Fin (- 1 / 27))"
    using run_sets_prices[of "init 3 2 8 (ln 2) (ln 4) 3"] p by (simp add: init_def)
  then show ?thesis using r rn by simp
qed

text \<open>
  C5, amended. For all valid parameters (\<open>time_to_maturity > 0\<close>, \<open>strike > 0\<close>,
  \<open>current_price > 0\<close>, \<open>volatility > 0\<close>, \<open>steps \<ge> 1\<close>) whose risk-neutral probability
  \<open>q\<close> lies in \<open>[0, 1]\<close>, the call price and the put price that \<open>run\<close> stores are
  finite and non-negative.
\<close>

theorem prices_nonneg:
  assumes "0 < time_to_maturity self" "0 < strike self" "0 < current_price self"
    "0 < volatility self" "1 \<le> steps self"
    and "risk_neutral (volatility self) (interest_rate self)
           (time_to_maturity self / real_of_int (steps self)) = Fin q"
    and "0 \<le> q" "q \<le> 1"
  shows "\<exists>c p. call_price (snd (run self)) = Some (Fin c) \<and> 0 \<le> c
             \<and> put_price (snd (run self)) = Some (Fin p) \<and> 0 \<le> p"
proof -
  define n where "n = nat (steps self)"
  have sn: "real_of_int (steps self) = real n" using assms(5) by (simp add: n_def)
  have dt: "0 < time_to_maturity self / real n" using assms(1,5) by (simp add: n_def)
  have "q = spec_q (volatility self) (interest_rate self) (time_to_maturity self / real n)"
    using assms(6) unfolding sn risk_neutral_Fin[OF assms(4) dt] by simp
  then have q: "0 \<le> spec_q (volatility self) (interest_rate self) (time_to_maturity self / real n)"
    "spec_q (volatility self) (interest_rate self) (time_to_maturity self / real n) \<le> 1"
    using assms(7,8) by simp_all
  show ?thesis
    using spec_prices_nonneg[OF q] run_sets_prices[OF assms(1,4,5)] unfolding n_def by blast
qed

text \<open>The amended C5 at \<open>T = 1\<close>, \<open>K = 1\<close>, \<open>S = 1\<close>, \<open>\<sigma> = 1\<close>, \<open>r = 0\<close>,
  \<open>steps = 2\<close>, where \<open>d < exp (r * dt) = 1 < u\<close> puts \<open>q\<close> in \<open>[0, 1]\<close>.\<close>

theorem prices_nonneg_witness:
  "risk_neutral 1 0 (1 / 2) = Fin (spec_q 1 0 (1 / 2))
 \<and> 0 \<le> spec_q 1 0 (1 / 2) \<and> spec_q 1 0 (1 / 2) \<le> 1
 \<and> (\<exists>c p. call_price (snd (run (init 1 1 1 1 0 2))) = Some (Fin c) \<and> 0 \<le> c
        \<and> put_price (snd (run (init 1 1 1 1 0 2))) = Some (Fin p) \<and> 0 \<le> p)"
proof -
  have dt: "(0::real) < 1 / 2" by simp
  have a: "spec_d 1 (1 / 2) \<le> exp (0 * (1 / 2))" "exp (0 * (1 / 2)) \<le> spec_u 1 (1 / 2)"
    using spec_u_gt_1[OF zero_less_one dt] spec_d_bounds[OF zero_less_one dt] by simp_all
  note q = spec_q_unit[OF zero_less_one dt a]
  have r: "risk_neutral 1 0 (1 / 2) = Fin (spec_q 1 0 (1 / 2))"
    by (rule risk_neutral_Fin) simp_all
  show ?thesis
    using prices_nonneg[of "init 1 1 1 1 0 2" "spec_q 1 0 (1 / 2)"] q r
    by (simp add: init_def)
qed

subsection \<open>C6: zero volatility\<close>

text \<open>
  C6 says that a call with \<open>volatility = 0\<close> fails with a division-by-zero error instead
  of returning NaN or infinite values. At \<open>T = 1\<close>, \<open>K = 1\<close>, \<open>S = 1\<close>, \<open>\<sigma> = 0\<close>,
  \<open>r = 0\<close>, \<open>steps = 2\<close> the call returns, and all six results are NaN.
\<close>

theorem zero_volatility_example:
  "run (init 1 1 1 0 0 2) =
     (Returned (),
      \<lparr>time_to_maturity = 1, strike = 1, current_price = 1, volatility = 0,
       interest_rate = 0, steps = 2,
       call_price = Some NaN, put_price = Some NaN, call_delta = Some NaN,
       put_delta = Some NaN, call_gamma = Some NaN, put_gamma = Some NaN\<rparr>)"
proof -
  have n: "1 \<le> steps (init 1 1 1 0 0 2)" by (simp add: init_def)
  have u: "[0..<3] = [0, 1, 2]" "[0..<2] = [0, 1]" by (simp_all add: upt_conv_Cons)
  show ?thesis
    unfolding run_def price_passes_ok[OF n]
    by (simp add: init_def zero_vol_factors risk_neutral_def discount_def np_backward_def
        np_level_def np_overwrite_def call_payoff_def put_payoff_def node_price_def u
        greeks_def getitem_def delta_of_def gamma_of_def np_sub_def
        numeral_2_eq_2 numeral_3_eq_3)
qed

text \<open>
  C6, amended. For every input with \<open>volatility = 0\<close>, \<open>time_to_maturity > 0\<close> and
  \<open>steps \<ge> 2\<close>, the call raises nothing: \<open>run\<close> returns, and each of the six results it
  stores is NaN or an infinity.
\<close>

theorem zero_volatility_returns:
  assumes "volatility self = 0" "0 < time_to_maturity self" "2 \<le> steps self"
  shows "fst (run self) = Returned ()
    \<and> (\<exists>cp pp cd pd cg pg.
          call_price (snd (run self)) = Some cp \<and> \<not> is_finite cp
        \<and> put_price (snd (run self)) = Some pp \<and> \<not> is_finite pp
        \<and> call_delta (snd (run self)) = Some cd \<and> \<not> is_finite cd
        \<and> put_delta (snd (run self)) = Some pd \<and> \<not> is_finite pd
        \<and> call_gamma (snd (run self)) = Some cg \<and> \<not> is_finite cg
        \<and> put_gamma (snd (run self)) = Some pg \<and> \<not> is_finite pg)"
proof -
  have n1: "1 \<le> steps self" and n0: "0 < nat (steps self)" using assms(3) by simp_all
  define dt where "dt = time_to_maturity self / real_of_int (steps self)"
  have dt: "0 \<le> dt" using assms by (simp add: dt_def)
  note Z = zero_vol_factors[OF dt]
  define disc where "disc = discount (interest_rate self) dt"
  define q where "q = risk_neutral 0 (interest_rate self) dt"
  define cs where "cs = np_backward disc q
             (map (call_payoff (strike self) (current_price self) (Fin 1) (Fin 1) (steps self))
                  [0..<nat (steps self) + 1]) (nat (steps self))"
  define ps where "ps = np_backward disc q
             (map (put_payoff (strike self) (current_price self) (Fin 1) (Fin 1) (steps self))
                  [0..<nat (steps self) + 1]) (nat (steps self))"
  have p: "price_passes self = Inr (cs ! 0, ps ! 0, ps, Fin 1, Fin 1)"
    unfolding price_passes_ok[OF n1] assms(1) dt_def[symmetric] Z(1,2)
      disc_def[symmetric] q_def[symmetric] cs_def ps_def ..
  have q: "\<not> is_finite q" unfolding q_def by (rule Z(3))
  have c0: "\<not> is_finite (cs ! 0)" unfolding cs_def
    by (rule np_backward_head_not_finite[OF n0 _ q]) simp
  have p0: "\<not> is_finite (ps ! 0)" unfolding ps_def
    by (rule np_backward_head_not_finite[OF n0 _ q]) simp
  have len: "2 < length ps" using assms(3) by (simp add: ps_def)
  show ?thesis
    using c0 p0 zero_vol_greeks np_sub_not_finite_right[OF zero_vol_greeks(1)]
    by (simp add: run_def p greeks_ok[OF len])
qed

text \<open>The amended C6 at \<open>T = 2\<close>, \<open>K = 90\<close>, \<open>S = 100\<close>, \<open>\<sigma> = 0\<close>, \<open>r = 1/20\<close>,
  \<open>steps = 100\<close>.\<close>

theorem zero_volatility_returns_witness:
  "fst (run (init 2 90 100 0 (1 / 20) 100)) = Returned ()
 \<and> (\<exists>cd. call_delta (snd (run (init 2 90 100 0 (1 / 20) 100))) = Some cd \<and> \<not> is_finite cd)"
  using zero_volatility_returns[of "init 2 90 100 0 (1 / 20) 100"]
  by (auto simp add: init_def)

subsection \<open>C7: fewer than one step\<close>

text \<open>
  C7 says that a call with \<open>steps < 1\<close> fails with an invalid-parameter error and not with
  an arithmetic failure such as the division by zero in \<open>dt\<close>. With \<open>steps = 0\<close> the
  call raises that very ZeroDivisionError.
\<close>

theorem zero_steps_example:
  "run (init 1 1 1 1 0 0) = (Raised ZeroDivisionError, init 1 1 1 1 0 0)"
  by (simp add: run_def price_passes_def py_truediv_def init_def)

text \<open>
  C7, amended. For every input with \<open>steps < 1\<close> the call raises and stores nothing; the
  method has no check of its own, and the error is the one of the first line that fails:
  ZeroDivisionError from \<open>time_to_maturity / steps\<close> when \<open>steps = 0\<close>, IndexError from
  \<open>option_prices[0]\<close> on the empty array when \<open>steps = -1\<close>, ValueError from
  \<open>np.zeros(steps + 1)\<close> when \<open>steps < -1\<close>.
\<close>

theorem run_steps_lt_1:
  assumes "steps self < 1"
  shows "run self =
     (Raised (if steps self = 0 then ZeroDivisionError
              else if steps self = - 1 then IndexError else ValueError), self)"
proof -
  consider "steps self = 0" | "steps self = - 1" | "steps self < - 1" using assms by linarith
  then show ?thesis
  proof cases
    case 1
    then show ?thesis by (simp add: run_def price_passes_def py_truediv_def)
  next
    case 2
    then show ?thesis
      by (simp add: run_def price_passes_def py_truediv_def Let_def lattice_pass_def
          np_zeros_def getitem_def)
  next
    case 3
    then show ?thesis
      by (simp add: run_def price_passes_def py_truediv_def Let_def lattice_pass_def
          np_zeros_def)
  qed
qed

text \<open>The amended C7 at \<open>steps = -1\<close> and at \<open>steps = -3\<close>.\<close>

theorem run_steps_lt_1_witness:
  "run (init 1 1 1 1 0 (- 1)) = (Raised IndexError, init 1 1 1 1 0 (- 1))
 \<and> run (init 1 1 1 1 0 (- 3)) = (Raised ValueError, init 1 1 1 1 0 (- 3))"
  using run_steps_lt_1[of "init 1 1 1 1 0 (- 1)"] run_steps_lt_1[of "init 1 1 1 1 0 (- 3)"]
  by (simp add: init_def)

subsection \<open>C8: the parameter sweep\<close>

text \<open>
  C8 says that the sweep produces its two grids for every pair of ranges and all base
  parameters. With \<open>steps = 0\<close> in the base parameters and one volatility and one spot,
  the first pricing call raises ZeroDivisionError and the sweep produces no grid.
\<close>

theorem sweep_raises_example:
  "plot_heatmap (init 1 1 1 1 0 0) [1] [1] 1 = Inl ZeroDivisionError"
  by (simp add: plot_heatmap_def np_zeros2_def enumerate_eq_zip binomial_temp_def init_def
      calculate_prices_def price_passes_def py_truediv_def)

text \<open>
  C8, amended. For every \<open>vol_range\<close>, \<open>spot_range\<close>, strike and base parameters with
  \<open>steps \<ge> 2\<close>, the sweep produces a call grid and a put grid of shape
  \<open>len(vol_range) \<times> len(spot_range)\<close>, and for every \<open>i\<close> and \<open>j\<close> the pair of cells
  \<open>[i][j]\<close> is the pair of prices that one pricing call on a fresh pricer with
  \<open>volatility = vol_range[i]\<close>, \<open>current_price = spot_range[j]\<close>, the strike and the base
  parameters returns.
\<close>

theorem sweep_cells:
  assumes "2 \<le> steps bm"
  shows "\<exists>cg pg. plot_heatmap bm spot_range vol_range K = Inr (cg, pg)
    \<and> length cg = length vol_range \<and> length pg = length vol_range
    \<and> (\<forall>i<length vol_range.
          length (cg ! i) = length spot_range \<and> length (pg ! i) = length spot_range
        \<and> (\<forall>j<length spot_range.
              \<exists>t. calculate_prices
                     (init (time_to_maturity bm) K (spot_range ! j) (vol_range ! i)
                        (interest_rate bm) (steps bm))
                   = (Returned (cg ! i ! j, pg ! i ! j), t)))"
proof -
  have c: "\<exists>t. calculate_prices (binomial_temp bm K v s)
             = (Returned (fst (returned_value (fst (calculate_prices (binomial_temp bm K v s)))),
                          snd (returned_value (fst (calculate_prices (binomial_temp bm K v s))))), t)"
    for v s
    using calculate_prices_ok[of "binomial_temp bm K v s"] assms by auto
  show ?thesis
    unfolding plot_heatmap_ok[OF assms]
    using c by (simp add: binomial_temp_def)
qed

text \<open>The amended C8 for one volatility and two spots.\<close>

theorem sweep_cells_witness:
  "\<exists>cg pg. plot_heatmap (init 1 1 1 1 0 2) [3, 4] [5] 1 = Inr (cg, pg)
    \<and> length cg = 1 \<and> length (cg ! 0) = 2 \<and> length pg = 1 \<and> length (pg ! 0) = 2
    \<and> (\<exists>t. calculate_prices (init 1 1 4 5 0 2) = (Returned (cg ! 0 ! 1, pg ! 0 ! 1), t))"
proof -
  have "2 \<le> steps (init 1 1 1 1 0 2)" by (simp add: init_def)
  from sweep_cells[OF this, of "[3, 4]" "[5]" 1]
  show ?thesis by (auto simp add: init_def)
qed

subsection \<open>C9: the factors\<close>

text \<open>
  C9. For every input with \<open>time_to_maturity > 0\<close>, \<open>steps \<ge> 1\<close> and \<open>volatility > 0\<close>,
  the step length is computed without error, the factors are the finite numbers
  \<open>u = exp (volatility * sqrt (time_to_maturity / steps))\<close> and \<open>d = 1 / u\<close>, and
  \<open>d < 1 < u\<close>.
\<close>

theorem factors_ordered:
  assumes "0 < T" "1 \<le> n" "0 < vol"
  shows "py_truediv T n = Inr (T / real_of_int n)
       \<and> up_factor vol (T / real_of_int n) = Fin (exp (vol * sqrt (T / real_of_int n)))
       \<and> down_factor vol (T / real_of_int n) = Fin (1 / exp (vol * sqrt (T / real_of_int n)))
       \<and> 1 / exp (vol * sqrt (T / real_of_int n)) < 1
       \<and> 1 < exp (vol * sqrt (T / real_of_int n))"
proof -
  have dt: "0 < T / real_of_int n" using assms by simp
  have "n \<noteq> 0" using assms by simp
  then show ?thesis
    using spec_u_gt_1[OF assms(3) dt] spec_d_bounds[OF assms(3) dt]
      up_factor_Fin[OF less_imp_le[OF dt], of vol] down_factor_Fin[OF less_imp_le[OF dt], of vol]
    by (simp add: py_truediv_def spec_u_def spec_d_def)
qed

text \<open>C9 at \<open>T = 2\<close>, \<open>steps = 100\<close>, \<open>\<sigma> = 1/5\<close>.\<close>

theorem factors_ordered_witness:
  "py_truediv 2 100 = Inr (2 / real_of_int 100)
 \<and> up_factor (1 / 5) (2 / real_of_int 100) = Fin (exp (1 / 5 * sqrt (2 / real_of_int 100)))
 \<and> down_factor (1 / 5) (2 / real_of_int 100)
     = Fin (1 / exp (1 / 5 * sqrt (2 / real_of_int 100)))
 \<and> 1 / exp (1 / 5 * sqrt (2 / real_of_int 100)) < (1::real)
 \<and> (1::real) < exp (1 / 5 * sqrt (2 / real_of_int 100))"
  using factors_ordered[of 2 100 "1 / 5"] by simp

subsection \<open>C10: the two copies of the method\<close>

text \<open>
  C10. On every pricer on which both \<open>run\<close> (model file) and \<open>calculate_prices\<close> (app
  file) return, the two leave the same six results in the object, and the pair that
  \<open>calculate_prices\<close> returns is the pair of prices.
\<close>

theorem run_calculate_prices_agree:
  assumes "fst (run self) = Returned ()" and "fst (calculate_prices self) = Returned r"
  shows "call_price (snd (run self)) = call_price (snd (calculate_prices self))
       \<and> put_price (snd (run self)) = put_price (snd (calculate_prices self))
       \<and> call_delta (snd (run self)) = call_delta (snd (calculate_prices self))
       \<and> put_delta (snd (run self)) = put_delta (snd (calculate_prices self))
       \<and> call_gamma (snd (run self)) = call_gamma (snd (calculate_prices self))
       \<and> put_gamma (snd (run self)) = put_gamma (snd (calculate_prices self))
       \<and> Some (fst r) = call_price (snd (run self))
       \<and> Some (snd r) = put_price (snd (run self))"
  using run_ReturnedD[OF assms(1)] calculate_prices_ReturnedD[OF assms(2)] by auto

text \<open>C10 at \<open>T = 2\<close>, \<open>K = 90\<close>, \<open>S = 100\<close>, \<open>\<sigma> = 1/5\<close>, \<open>r = 1/20\<close>,
  \<open>steps = 100\<close>, where both return.\<close>

theorem run_calculate_prices_agree_witness:
  "fst (run (init 2 90 100 (1 / 5) (1 / 20) 100)) = Returned ()
 \<and> (\<exists>r. fst (calculate_prices (init 2 90 100 (1 / 5) (1 / 20) 100)) = Returned r)
 \<and> call_price (snd (run (init 2 90 100 (1 / 5) (1 / 20) 100)))
     = call_price (snd (calculate_prices (init 2 90 100 (1 / 5) (1 / 20) 100)))
 \<and> call_delta (snd (run (init 2 90 100 (1 / 5) (1 / 20) 100)))
     = call_delta (snd (calculate_prices (init 2 90 100 (1 / 5) (1 / 20) 100)))
 \<and> put_gamma (snd (run (init 2 90 100 (1 / 5) (1 / 20) 100)))
     = put_gamma (snd (calculate_prices (init 2 90 100 (1 / 5) (1 / 20) 100)))"
proof -
  let ?p = "init 2 90 100 (1 / 5) (1 / 20) 100"
  have n: "2 \<le> steps ?p" by (simp add: init_def)
  have r: "fst (run ?p) = Returned ()" by (rule run_returns[OF n])
  obtain cp pp t where c: "calculate_prices ?p = (Returned (cp, pp), t)"
    using calculate_prices_ok[OF n] by blast
  then have c': "fst (calculate_prices ?p) = Returned (cp, pp)" by simp
  from run_calculate_prices_agree[OF r c'] r c' show ?thesis by blast
qed

end
